theory Spec2Isabelle
  imports Main
begin

section \<open>The workflow document and the editing session\<close>

text \<open>
  The editor of \<^verbatim>\<open>static/script.js\<close> keeps one mutable object \<^verbatim>\<open>state\<close> with the
  workflow being edited (\<^verbatim>\<open>state.currentWorkflow\<close>, \<^verbatim>\<open>null\<close> while none is loaded) and
  the id of the node whose text is shown in the editor (\<^verbatim>\<open>state.selectedPrompt\<close>).
  A workflow holds \<^verbatim>\<open>config = {entry_point, final_output_key, nodes, edges}\<close> and two
  objects used as dictionaries from node ids to text, \<^verbatim>\<open>prompts\<close> and \<^verbatim>\<open>scripts\<close>.
  Node types are the strings \<^verbatim>\<open>llm\<close>, \<^verbatim>\<open>python\<close> and \<^verbatim>\<open>join\<close>; the code compares them
  as strings and treats every other string like \<^verbatim>\<open>llm\<close> when drawing, so the type stays a
  string here.

  \<^verbatim>\<open>prompts\<close> and \<^verbatim>\<open>scripts\<close> are plain JavaScript objects, so a key is looked up among the
  object's own properties first and then on \<^verbatim>\<open>Object.prototype\<close>. The model keeps the own
  properties as a finite map. A value is a text or, once the rename handler has copied an
  inherited value, the built-in object that \<^verbatim>\<open>Object.prototype\<close> holds under a name. Reading
  a key that is not an own property gives that built-in object for the names of
  \<^verbatim>\<open>Object.prototype\<close> (its methods, \<^verbatim>\<open>constructor\<close>, and the accessor \<^verbatim>\<open>__proto__\<close>) and
  \<^verbatim>\<open>undefined\<close> for every other key. Assigning to a key creates or overwrites an own
  property, with one exception: while \<^verbatim>\<open>__proto__\<close> is not an own property, the assignment
  runs the setter of \<^verbatim>\<open>Object.prototype\<close>, which stores nothing. (Given a built-in object
  instead of a text, that setter would make it the dictionary's prototype; the model
  leaves the prototype at \<^verbatim>\<open>Object.prototype\<close>, so it does not follow the code beyond such
  an assignment.) \<^verbatim>\<open>delete\<close> removes an own property and nothing else.
\<close>

datatype js_error = TypeError

record node =
  node_id :: string
  node_type :: string
  output_key :: string

record edge =
  source :: string
  target :: string
  conditional :: bool

record config =
  entry_point :: string
  final_output_key :: string
  nodes :: "node list"
  edges :: "edge list"

datatype js_value = Text string | Builtin string

definition object_prototype_names :: "string list" where
  "object_prototype_names =
     [''constructor'', ''hasOwnProperty'', ''isPrototypeOf'', ''propertyIsEnumerable'',
      ''toLocaleString'', ''toString'', ''valueOf'', ''__defineGetter__'', ''__defineSetter__'',
      ''__lookupGetter__'', ''__lookupSetter__'', ''__proto__'']"

definition get_property :: "(string \<rightharpoonup> js_value) \<Rightarrow> string \<Rightarrow> js_value option" where
  "get_property m k =
     (case m k of
        Some v \<Rightarrow> Some v
      | None \<Rightarrow> if k \<in> set object_prototype_names then Some (Builtin k) else None)"

definition set_property :: "string \<Rightarrow> js_value \<Rightarrow> (string \<rightharpoonup> js_value) \<Rightarrow> (string \<rightharpoonup> js_value)" where
  "set_property k v m = (if k = ''__proto__'' \<and> m k = None then m else m(k \<mapsto> v))"

record workflow =
  workflow_id :: string
  workflow_name :: string
  config :: config
  prompts :: "string \<rightharpoonup> js_value"
  scripts :: "string \<rightharpoonup> js_value"

record state =
  currentWorkflow :: "workflow option"
  selectedPrompt :: "string option"

subsection \<open>Re-rendering: the part of \<^verbatim>\<open>renderAll\<close> that writes to the state\<close>

text \<open>
  \<^verbatim>\<open>renderAll\<close> returns at once when no workflow is loaded. Otherwise it rebuilds the page;
  of the functions it calls only \<^verbatim>\<open>renderEditor\<close> writes to \<^verbatim>\<open>state\<close>: it returns early when
  no node is of type \<^verbatim>\<open>llm\<close> or \<^verbatim>\<open>python\<close>, and otherwise creates the default texts in array
  order, for each editable node whose id reads as \<^verbatim>\<open>undefined\<close>, and repairs \<^verbatim>\<open>state.selectedPrompt\<close> when it is falsy (\<^verbatim>\<open>null\<close> or the empty
  string) or names no editable node.
\<close>

definition default_script :: string where
  "default_script =
     ''def main(state):'' @ [CHR 0x0A, CHR 0x0A] @
     ''  result = f'' @ [CHR 0x22] @ ''Hello from Python: {state.get('' @ [CHR 0x27] @ ''input'' @
     [CHR 0x27] @ '', '' @ [CHR 0x27] @ ''no input'' @ [CHR 0x27] @ '')}'' @ [CHR 0x22] @
     [CHR 0x0A, CHR 0x0A] @ ''  return result'' @ [CHR 0x0A]"

definition editable :: "node \<Rightarrow> bool" where
  "editable n = (node_type n = ''llm'' \<or> node_type n = ''python'')"

definition ensure_text :: "node \<Rightarrow> workflow \<Rightarrow> workflow" where
  "ensure_text n w =
     (if node_type n = ''llm'' \<and> get_property (prompts w) (node_id n) = None
      then w\<lparr>prompts := set_property (node_id n) (Text []) (prompts w)\<rparr>
      else if node_type n = ''python'' \<and> get_property (scripts w) (node_id n) = None
      then w\<lparr>scripts := set_property (node_id n) (Text default_script) (scripts w)\<rparr>
      else w)"

definition keeps_selection :: "string option \<Rightarrow> node list \<Rightarrow> bool" where
  "keeps_selection sel editableNodes =
     (case sel of None \<Rightarrow> False
      | Some p \<Rightarrow> p \<noteq> [] \<and> p \<in> set (map node_id editableNodes))"

definition renderEditor :: "workflow \<Rightarrow> string option \<Rightarrow> workflow \<times> string option" where
  "renderEditor w sel =
     (case filter editable (nodes (config w)) of
        [] \<Rightarrow> (w, sel)
      | n0 # rest \<Rightarrow>
          (fold ensure_text (n0 # rest) w,
           if keeps_selection sel (n0 # rest) then sel else Some (node_id n0)))"

definition renderAll :: "state \<Rightarrow> state" where
  "renderAll s =
     (case currentWorkflow s of
        None \<Rightarrow> s
      | Some w \<Rightarrow>
          s\<lparr>currentWorkflow := Some (fst (renderEditor w (selectedPrompt s))),
            selectedPrompt := snd (renderEditor w (selectedPrompt s))\<rparr>)"

subsection \<open>Renaming a node: the \<^verbatim>\<open>change\<close> handler of the node list\<close>

text \<open>
  The handler reads \<^verbatim>\<open>nodes[index]\<close> and returns when there is no such node. For the id
  field it assigns the new id, walks the edges, and moves the entry point, the two
  dictionary entries and the selection, in this order, then calls \<^verbatim>\<open>renderAll\<close>. The
  dictionary move is \<^verbatim>\<open>m[newId] = m[oldId]; delete m[oldId]\<close>, guarded by
  \<^verbatim>\<open>m[oldId] !== undefined\<close>; the read, the assignment and the guard are those of a plain
  object. Every branch ends in \<^verbatim>\<open>handleStateChange()\<close>, which is the
  dirty signal of the autosave section below.
\<close>

definition rebind_edge :: "string \<Rightarrow> string \<Rightarrow> edge \<Rightarrow> edge" where
  "rebind_edge oldId newId e =
     (let e1 = (if source e = oldId then e\<lparr>source := newId\<rparr> else e)
      in if target e1 = oldId then e1\<lparr>target := newId\<rparr> else e1)"

definition move_key :: "string \<Rightarrow> string \<Rightarrow> (string \<rightharpoonup> js_value) \<Rightarrow> (string \<rightharpoonup> js_value)" where
  "move_key oldId newId m =
     (case get_property m oldId of
        None \<Rightarrow> m
      | Some v \<Rightarrow> (set_property newId v m)(oldId := None))"

definition renameNode :: "nat \<Rightarrow> string \<Rightarrow> workflow \<Rightarrow> state \<Rightarrow> state" where
  "renameNode i newId w s =
     (let c = config w;
          oldId = node_id (nodes c ! i);
          c1 = c\<lparr>nodes := (nodes c)[i := (nodes c ! i)\<lparr>node_id := newId\<rparr>]\<rparr>;
          c2 = c1\<lparr>edges := map (rebind_edge oldId newId) (edges c1)\<rparr>;
          c3 = (if entry_point c2 = oldId then c2\<lparr>entry_point := newId\<rparr> else c2)
      in s\<lparr>currentWorkflow :=
              Some (w\<lparr>config := c3,
                      prompts := move_key oldId newId (prompts w),
                      scripts := move_key oldId newId (scripts w)\<rparr>),
            selectedPrompt :=
              (if selectedPrompt s = Some oldId then Some newId else selectedPrompt s)\<rparr>)"

datatype change_target = NodeIdInput string | NodeTypeSelect string | NodeOutputKeyInput string

definition set_node_type :: "nat \<Rightarrow> string \<Rightarrow> workflow \<Rightarrow> workflow" where
  "set_node_type i t w =
     w\<lparr>config := (config w)\<lparr>nodes := (nodes (config w))[i := (nodes (config w) ! i)\<lparr>node_type := t\<rparr>]\<rparr>\<rparr>"

definition set_node_output_key :: "nat \<Rightarrow> string \<Rightarrow> workflow \<Rightarrow> workflow" where
  "set_node_output_key i k w =
     w\<lparr>config := (config w)\<lparr>nodes := (nodes (config w))[i := (nodes (config w) ! i)\<lparr>output_key := k\<rparr>]\<rparr>\<rparr>"

definition nodesList_change :: "nat \<Rightarrow> change_target \<Rightarrow> state \<Rightarrow> js_error + state" where
  "nodesList_change i tgt s =
     (case currentWorkflow s of
        None \<Rightarrow> Inl TypeError
      | Some w \<Rightarrow>
          if length (nodes (config w)) \<le> i then Inr s
          else (case tgt of
                  NodeIdInput newId \<Rightarrow> Inr (renderAll (renameNode i newId w s))
                | NodeTypeSelect t \<Rightarrow>
                    Inr (renderAll (s\<lparr>currentWorkflow := Some (set_node_type i t w)\<rparr>))
                | NodeOutputKeyInput k \<Rightarrow>
                    Inr (s\<lparr>currentWorkflow := Some (set_node_output_key i k w)\<rparr>)))"

subsection \<open>Removing a node: the \<^verbatim>\<open>click\<close> handler of the node list\<close>

text \<open>
  The delete button of a node card carries the node's index. The handler returns when
  \<^verbatim>\<open>nodes[index]\<close> is missing; otherwise it splices the node out, filters the edges,
  deletes the two dictionary keys, resets \<^verbatim>\<open>state.selectedPrompt\<close> when it names the node,
  and re-renders. It has no statement that writes \<^verbatim>\<open>config.entry_point\<close>.
\<close>

definition removeNode :: "nat \<Rightarrow> workflow \<Rightarrow> state \<Rightarrow> state" where
  "removeNode i w s =
     (let c = config w;
          nid = node_id (nodes c ! i);
          c1 = c\<lparr>nodes := take i (nodes c) @ drop (Suc i) (nodes c)\<rparr>;
          c2 = c1\<lparr>edges := filter (\<lambda>e. source e \<noteq> nid \<and> target e \<noteq> nid) (edges c1)\<rparr>
      in s\<lparr>currentWorkflow :=
              Some (w\<lparr>config := c2,
                      prompts := (prompts w)(nid := None),
                      scripts := (scripts w)(nid := None)\<rparr>),
            selectedPrompt := (if selectedPrompt s = Some nid then None else selectedPrompt s)\<rparr>)"

definition nodesList_click_delete :: "nat \<Rightarrow> state \<Rightarrow> js_error + state" where
  "nodesList_click_delete i s =
     (case currentWorkflow s of
        None \<Rightarrow> Inl TypeError
      | Some w \<Rightarrow>
          if length (nodes (config w)) \<le> i then Inr s
          else Inr (renderAll (removeNode i w s)))"

subsection \<open>Adding a node: the \<^verbatim>\<open>click\<close> handler of the add-node button\<close>

text \<open>
  The new id is the template \<^verbatim>\<open>node_${Date.now()}\<close>: the text \<^verbatim>\<open>node_\<close> followed by the
  clock's milliseconds in decimal. The clock reading is a parameter of the model. The
  handler pushes the node without looking at the ids already present.
\<close>

definition decimal_digit :: "nat \<Rightarrow> char" where
  "decimal_digit d = char_of (d + 48)"

function string_of_nat :: "nat \<Rightarrow> string" where
  "string_of_nat n =
     (if 10 \<le> n then string_of_nat (n div 10) @ [decimal_digit (n mod 10)]
      else [decimal_digit n])"
  by pat_completeness auto
termination
  by (relation "measure (\<lambda>n. n)") auto

declare string_of_nat.simps [simp del]

definition newNodeId :: "nat \<Rightarrow> string" where
  "newNodeId now = ''node_'' @ string_of_nat now"

definition add_node_click :: "nat \<Rightarrow> state \<Rightarrow> js_error + state" where
  "add_node_click now s =
     (case currentWorkflow s of
        None \<Rightarrow> Inl TypeError
      | Some w \<Rightarrow>
          Inr (renderAll (s\<lparr>currentWorkflow :=
                 Some (w\<lparr>config := (config w)\<lparr>nodes := nodes (config w) @
                    [\<lparr>node_id = newNodeId now, node_type = ''llm'', output_key = []\<rparr>]\<rparr>\<rparr>)\<rparr>)))"

definition node_ids :: "state \<Rightarrow> string list" where
  "node_ids s = (case currentWorkflow s of None \<Rightarrow> [] | Some w \<Rightarrow> map node_id (nodes (config w)))"

section \<open>The diagram text: \<^verbatim>\<open>renderGraph\<close>\<close>

text \<open>
  \<^verbatim>\<open>renderGraph\<close> collects the statements of a Mermaid graph in the array
  \<^verbatim>\<open>graphDefinition\<close>: the header, the statements of each node in array order, one style
  statement when \<^verbatim>\<open>config.entry_point\<close> is truthy (a non-empty string), and one statement
  per edge. Only then does it look at the number of nodes: with none it shows a
  placeholder, otherwise it hands the statements, joined by newlines, to the diagram
  engine. The identifier in front of a node's shape and the two ends of an edge go
  through \<^verbatim>\<open>replace(/"/g, '#quot;')\<close>; the label and the entry point do not.
  The label of a conditional edge is Japanese text, written here as its UTF-8 bytes.
  Strings are lists of bytes; the double quote is one byte and is part of no other
  character's encoding, so replacing it byte by byte is what the code does.
\<close>

definition dquote :: string where
  "dquote = [CHR 0x22]"

definition escape_quot :: "string \<Rightarrow> string" where
  "escape_quot str = concat (map (\<lambda>c. if c = CHR 0x22 then ''#quot;'' else [c]) str)"

definition nodeLabel :: "node \<Rightarrow> string" where
  "nodeLabel n = node_id n @ ''<br/><i>('' @ node_type n @ '')</i>''"

definition box_statement :: "node \<Rightarrow> string" where
  "box_statement n = ''  '' @ escape_quot (node_id n) @ ''['' @ dquote @ nodeLabel n @ dquote @ '']''"

definition diamond_statement :: "node \<Rightarrow> string" where
  "diamond_statement n = ''  '' @ escape_quot (node_id n) @ ''{'' @ dquote @ nodeLabel n @ dquote @ ''}''"

definition python_style_statement :: "node \<Rightarrow> string" where
  "python_style_statement n =
     ''  style '' @ escape_quot (node_id n) @ '' fill:#fff0e6,stroke:#ff9933,stroke-width:2px''"

definition push_node :: "string list \<Rightarrow> node \<Rightarrow> string list" where
  "push_node g n =
     (if node_type n = ''python'' then g @ [box_statement n] @ [python_style_statement n]
      else if node_type n = ''join'' then g @ [diamond_statement n]
      else g @ [box_statement n])"

definition entry_style_statement :: "string \<Rightarrow> string" where
  "entry_style_statement ep = ''  style '' @ ep @ '' fill:#e9f7ef,stroke:#27ae60,stroke-width:2px''"

definition conditional_arrow :: string where
  "conditional_arrow =
     ''-- '' @ [CHR 0xE6, CHR 0x9D, CHR 0xA1, CHR 0xE4, CHR 0xBB, CHR 0xB6,
               CHR 0xE5, CHR 0x88, CHR 0x86, CHR 0xE5, CHR 0xB2, CHR 0x90] @ '' -->''"

definition edge_statement :: "edge \<Rightarrow> string" where
  "edge_statement e =
     ''  '' @ escape_quot (source e) @ '' '' @
     (if conditional e then conditional_arrow else ''-->'') @ '' '' @ escape_quot (target e)"

definition push_edge :: "string list \<Rightarrow> edge \<Rightarrow> string list" where
  "push_edge g e = g @ [edge_statement e]"

definition graphDefinition :: "config \<Rightarrow> string list" where
  "graphDefinition c =
     (let g1 = foldl push_node [''graph TD''] (nodes c);
          g2 = (if entry_point c \<noteq> [] then g1 @ [entry_style_statement (entry_point c)] else g1)
      in foldl push_edge g2 (edges c))"

fun join_lines :: "string list \<Rightarrow> string" where
  "join_lines [] = []"
| "join_lines [l] = l"
| "join_lines (l # l' # ls) = l @ [CHR 0x0A] @ join_lines (l' # ls)"

datatype graph_view = Untouched | NoNodesPlaceholder | MermaidRender string

definition renderGraph :: "state \<Rightarrow> graph_view" where
  "renderGraph s =
     (case currentWorkflow s of
        None \<Rightarrow> Untouched
      | Some w \<Rightarrow>
          if nodes (config w) = [] then NoNodesPlaceholder
          else MermaidRender (join_lines (graphDefinition (config w))))"

section \<open>Autosave: the debounced save and the status line\<close>

text \<open>
  Time is a logical clock in milliseconds. \<^verbatim>\<open>setTimeout\<close> hands out handles that are
  positive and never reused, and a pending timer runs when the clock reaches its due
  time, earlier timers first. \<^verbatim>\<open>clearTimeout\<close> converts its argument to a number: a
  handle names its timer, while \<^verbatim>\<open>undefined\<close> and a function object both convert to 0,
  which is the handle of no timer.

  Two closures are ever scheduled: \<^verbatim>\<open>later\<close>, made by \<^verbatim>\<open>debounce\<close> around \<^verbatim>\<open>saveWorkflow\<close>
  with a wait of 2000, and the status-clearing arrow function that \<^verbatim>\<open>saveWorkflow\<close>
  schedules with a wait of 4000 after the request has settled. \<^verbatim>\<open>saveWorkflow\<close> is
  asynchronous: it runs up to the request (\<^verbatim>\<open>saveWorkflow_begin\<close>), and the rest runs when
  the request has succeeded or failed (\<^verbatim>\<open>saveWorkflow_end\<close>, with the error message of a
  failure). The list \<^verbatim>\<open>requests\<close> records the clock at every \<^verbatim>\<open>PUT\<close> handed to \<^verbatim>\<open>fetchAPI\<close>.
  Of \<^verbatim>\<open>state.currentWorkflow\<close> the scheduler reads only whether it is set and its id.
  The status texts are Japanese sentences; they are named, not spelled, here:
  \<^verbatim>\<open>Changed\<close> is the "modified, will be saved automatically" notice, \<^verbatim>\<open>Saving\<close>,
  \<^verbatim>\<open>Saved\<close> and \<^verbatim>\<open>SaveFailed\<close> are the three texts of \<^verbatim>\<open>saveWorkflow\<close>, \<^verbatim>\<open>Blank\<close> is the
  empty text.
\<close>

datatype callback = Later | ClearStatus

datatype colour = Secondary | Success | Danger

datatype status_message = Blank | Changed | Saving | Saved | SaveFailed string

datatype timer_arg = Undefined | Handle nat | DebouncedSave

record timer =
  handle :: nat
  due :: nat
  callback :: callback

record scheduler =
  clock :: nat
  next_handle :: nat
  timers :: "timer list"
  timeout :: timer_arg
  current_id :: "string option"
  status_text :: status_message
  status_color :: colour
  requests :: "nat list"

definition debounce_wait :: nat where
  "debounce_wait = 2000"

definition status_wait :: nat where
  "status_wait = 4000"

fun handle_number :: "timer_arg \<Rightarrow> nat" where
  "handle_number Undefined = 0"
| "handle_number (Handle h) = h"
| "handle_number DebouncedSave = 0"

definition clearTimeout :: "timer_arg \<Rightarrow> scheduler \<Rightarrow> scheduler" where
  "clearTimeout a p = p\<lparr>timers := filter (\<lambda>x. handle x \<noteq> handle_number a) (timers p)\<rparr>"

definition setTimeout :: "callback \<Rightarrow> nat \<Rightarrow> scheduler \<Rightarrow> scheduler" where
  "setTimeout k wait p =
     p\<lparr>timers := timers p @ [\<lparr>handle = next_handle p, due = clock p + wait, callback = k\<rparr>],
       next_handle := Suc (next_handle p)\<rparr>"

definition updateSaveStatus :: "status_message \<Rightarrow> colour \<Rightarrow> scheduler \<Rightarrow> scheduler" where
  "updateSaveStatus m col p = p\<lparr>status_text := m, status_color := col\<rparr>"

definition debouncedSave :: "scheduler \<Rightarrow> scheduler" where
  "debouncedSave p =
     (let p1 = clearTimeout (timeout p) p
      in (setTimeout Later debounce_wait p1)\<lparr>timeout := Handle (next_handle p1)\<rparr>)"

definition handleStateChange :: "scheduler \<Rightarrow> scheduler" where
  "handleStateChange p =
     (if current_id p = None then p
      else debouncedSave (updateSaveStatus Changed Secondary p))"

definition saveWorkflow_begin :: "scheduler \<Rightarrow> scheduler" where
  "saveWorkflow_begin p =
     (if current_id p = None \<or> current_id p = Some [] then p
      else (let p1 = clearTimeout DebouncedSave p;
                p2 = updateSaveStatus Saving Secondary p1
            in p2\<lparr>requests := requests p2 @ [clock p2]\<rparr>))"

definition saveWorkflow_end :: "string option \<Rightarrow> scheduler \<Rightarrow> scheduler" where
  "saveWorkflow_end failure p =
     setTimeout ClearStatus status_wait
       (case failure of
          None \<Rightarrow> updateSaveStatus Saved Success p
        | Some msg \<Rightarrow> updateSaveStatus (SaveFailed msg) Danger p)"

definition clear_status :: "scheduler \<Rightarrow> scheduler" where
  "clear_status p =
     (if status_color p \<noteq> Danger then updateSaveStatus Blank Secondary p else p)"

fun run_callback :: "callback \<Rightarrow> scheduler \<Rightarrow> scheduler" where
  "run_callback Later p = saveWorkflow_begin (clearTimeout (timeout p) p)"
| "run_callback ClearStatus p = clear_status p"

fun earliest :: "timer list \<Rightarrow> timer option" where
  "earliest [] = None"
| "earliest (x # xs) =
     (case earliest xs of
        None \<Rightarrow> Some x
      | Some y \<Rightarrow> if due x \<le> due y then Some x else Some y)"

definition fire :: "timer \<Rightarrow> scheduler \<Rightarrow> scheduler" where
  "fire x p = run_callback (callback x) (p\<lparr>timers := remove1 x (timers p), clock := max (clock p) (due x)\<rparr>)"

function run_until :: "nat \<Rightarrow> scheduler \<Rightarrow> scheduler" where
  "run_until t p =
     (case earliest (filter (\<lambda>x. due x \<le> t) (timers p)) of
        None \<Rightarrow> p\<lparr>clock := max (clock p) t\<rparr>
      | Some x \<Rightarrow> run_until t (fire x p))"
  by pat_completeness auto
termination
proof (relation "measure (\<lambda>(t, p). length (timers p))")
  show "wf (measure (\<lambda>(t, p). length (timers p)))"
    by simp
next
  fix t :: nat and p :: scheduler and x :: timer
  assume sel: "earliest (filter (\<lambda>x. due x \<le> t) (timers p)) = Some x"
  have mem: "y \<in> set ys" if "earliest ys = Some y" for ys :: "timer list" and y
    using that by (induction ys arbitrary: y) (auto split: option.splits if_splits)
  from mem [OF sel] have "x \<in> set (timers p)"
    by simp
  then have shorter: "length (remove1 x (timers p)) < length (timers p)"
    by (simp add: length_remove1) (cases "timers p"; simp)
  have "length (timers (fire x p)) \<le> length (remove1 x (timers p))"
    by (cases "callback x")
      (simp_all add: fire_def saveWorkflow_begin_def clearTimeout_def updateSaveStatus_def
        clear_status_def Let_def le_trans [OF length_filter_le length_filter_le])
  with shorter show "((t, fire x p), (t, p)) \<in> measure (\<lambda>(t, p). length (timers p))"
    by simp
qed

declare run_until.simps [simp del]

text \<open>
  Events of a run, each at a clock reading: the timers due by then run first. A dirty
  signal is a call of \<^verbatim>\<open>handleStateChange\<close>, a manual save a click on the save button, and
  a response the settling of a request. \<^verbatim>\<open>within_window t ts\<close> says that the signals at the
  times \<^verbatim>\<open>ts\<close> follow a signal at time \<^verbatim>\<open>t\<close> and one another by less than the debounce wait.
\<close>

definition markDirty_at :: "nat \<Rightarrow> scheduler \<Rightarrow> scheduler" where
  "markDirty_at t p = handleStateChange (run_until t p)"

definition saveNow_at :: "nat \<Rightarrow> scheduler \<Rightarrow> scheduler" where
  "saveNow_at t p = saveWorkflow_begin (run_until t p)"

definition response_at :: "nat \<Rightarrow> string option \<Rightarrow> scheduler \<Rightarrow> scheduler" where
  "response_at t failure p = saveWorkflow_end failure (run_until t p)"

fun within_window :: "nat \<Rightarrow> nat list \<Rightarrow> bool" where
  "within_window t [] = True"
| "within_window t (t' # ts) = (t \<le> t' \<and> t' < t + debounce_wait \<and> within_window t' ts)"

definition pending_saves :: "scheduler \<Rightarrow> timer list" where
  "pending_saves p = filter (\<lambda>x. callback x = Later) (timers p)"

definition page_loaded :: scheduler where
  "page_loaded =
     \<lparr>clock = 0, next_handle = 1, timers = [], timeout = Undefined, current_id = Some ''wf1'',
      status_text = Blank, status_color = Secondary, requests = []\<rparr>"

section \<open>Example documents\<close>

text \<open>
  The graph of the specification's own examples: an \<^verbatim>\<open>llm\<close> node \<^verbatim>\<open>a\<close> with a prompt, a
  \<^verbatim>\<open>join\<close> node \<^verbatim>\<open>b\<close>, the edge from \<^verbatim>\<open>a\<close> to \<^verbatim>\<open>b\<close>, and \<^verbatim>\<open>a\<close> as entry point and as the
  node selected in the editor. The second document has two \<^verbatim>\<open>llm\<close> nodes with a prompt
  each.
\<close>

definition demo_workflow :: workflow where
  "demo_workflow =
     \<lparr>workflow_id = ''wf1'', workflow_name = ''demo'',
      config = \<lparr>entry_point = ''a'', final_output_key = [],
                nodes = [\<lparr>node_id = ''a'', node_type = ''llm'', output_key = []\<rparr>,
                         \<lparr>node_id = ''b'', node_type = ''join'', output_key = []\<rparr>],
                edges = [\<lparr>source = ''a'', target = ''b'', conditional = False\<rparr>]\<rparr>,
      prompts = [''a'' \<mapsto> Text ''hi''], scripts = Map.empty\<rparr>"

definition demo_state :: state where
  "demo_state = \<lparr>currentWorkflow = Some demo_workflow, selectedPrompt = Some ''a''\<rparr>"

definition two_prompts_workflow :: workflow where
  "two_prompts_workflow =
     \<lparr>workflow_id = ''wf2'', workflow_name = ''pair'',
      config = \<lparr>entry_point = ''a'', final_output_key = [],
                nodes = [\<lparr>node_id = ''a'', node_type = ''llm'', output_key = []\<rparr>,
                         \<lparr>node_id = ''b'', node_type = ''llm'', output_key = []\<rparr>],
                edges = []\<rparr>,
      prompts = [''a'' \<mapsto> Text ''first'', ''b'' \<mapsto> Text ''second''], scripts = Map.empty\<rparr>"

definition two_prompts_state :: state where
  "two_prompts_state = \<lparr>currentWorkflow = Some two_prompts_workflow, selectedPrompt = Some ''a''\<rparr>"

text \<open>
  Two handler calls in a row, the second on the state the first has left, and the node
  ids of a handler's result.
\<close>

definition and_then :: "js_error + state \<Rightarrow> (state \<Rightarrow> js_error + state) \<Rightarrow> js_error + state" where
  "and_then r f = (case r of Inl e \<Rightarrow> Inl e | Inr s \<Rightarrow> f s)"

definition result_ids :: "js_error + state \<Rightarrow> string list" where
  "result_ids r = (case r of Inl e \<Rightarrow> [] | Inr s \<Rightarrow> node_ids s)"

text \<open>
  The statements one node contributes to the diagram, a node whose id holds a double
  quote, and the configuration the example graph is left with when node \<^verbatim>\<open>a\<close> is deleted.
\<close>

definition node_statements :: "node \<Rightarrow> string list" where
  "node_statements n = push_node [] n"

definition quoted_node :: node where
  "quoted_node = \<lparr>node_id = ''a'' @ [CHR 0x22] @ ''b'', node_type = ''llm'', output_key = []\<rparr>"

definition quoted_config :: config where
  "quoted_config =
     \<lparr>entry_point = ''a'' @ [CHR 0x22] @ ''b'', final_output_key = [], nodes = [quoted_node], edges = []\<rparr>"

definition quoted_state :: state where
  "quoted_state =
     \<lparr>currentWorkflow =
        Some \<lparr>workflow_id = ''wf3'', workflow_name = ''quoted'', config = quoted_config,
              prompts = Map.empty, scripts = Map.empty\<rparr>,
      selectedPrompt = None\<rparr>"

definition dangling_entry_config :: config where
  "dangling_entry_config =
     \<lparr>entry_point = ''a'', final_output_key = [],
      nodes = [\<lparr>node_id = ''b'', node_type = ''join'', output_key = []\<rparr>], edges = []\<rparr>"

text \<open>
  A run of the page: a manual save at time 0 whose request succeeds at time 100, and an
  edit at time 3000, while the status-clearing timer of the save (due at 4100) is still
  pending.
\<close>

definition edited_after_save :: scheduler where
  "edited_after_save = markDirty_at 3000 (response_at 100 None (saveNow_at 0 page_loaded))"

section \<open>Properties of the editing handlers\<close>

lemma ensure_text_config [simp]: "config (ensure_text n w) = config w"
  by (simp add: ensure_text_def)

lemma fold_ensure_text_config [simp]: "config (fold ensure_text ns w) = config w"
  by (induction ns arbitrary: w) simp_all

lemma ensure_text_keeps_prompt:
  "prompts w k = Some v \<Longrightarrow> prompts (ensure_text n w) k = Some v"
  by (auto simp: ensure_text_def get_property_def set_property_def)

lemma ensure_text_keeps_script:
  "scripts w k = Some v \<Longrightarrow> scripts (ensure_text n w) k = Some v"
  by (auto simp: ensure_text_def get_property_def set_property_def)

lemma fold_ensure_text_keeps_prompt:
  "prompts w k = Some v \<Longrightarrow> prompts (fold ensure_text ns w) k = Some v"
  by (induction ns arbitrary: w) (simp_all add: ensure_text_keeps_prompt)

lemma fold_ensure_text_keeps_script:
  "scripts w k = Some v \<Longrightarrow> scripts (fold ensure_text ns w) k = Some v"
  by (induction ns arbitrary: w) (simp_all add: ensure_text_keeps_script)

lemma renderEditor_config [simp]: "config (fst (renderEditor w sel)) = config w"
  by (simp add: renderEditor_def split: list.splits)

lemma renderEditor_keeps_prompt:
  "prompts w k = Some v \<Longrightarrow> prompts (fst (renderEditor w sel)) k = Some v"
  by (simp add: renderEditor_def fold_ensure_text_keeps_prompt ensure_text_keeps_prompt split: list.splits)

lemma renderEditor_keeps_script:
  "scripts w k = Some v \<Longrightarrow> scripts (fst (renderEditor w sel)) k = Some v"
  by (simp add: renderEditor_def fold_ensure_text_keeps_script ensure_text_keeps_script split: list.splits)

lemma renderAll_loaded:
  "currentWorkflow s = Some w \<Longrightarrow>
   currentWorkflow (renderAll s) = Some (fst (renderEditor w (selectedPrompt s)))"
  by (simp add: renderAll_def)

lemma rebind_edge_fields:
  "source (rebind_edge oldId newId e) = (if source e = oldId then newId else source e)"
  "target (rebind_edge oldId newId e) = (if target e = oldId then newId else target e)"
  "conditional (rebind_edge oldId newId e) = conditional e"
  by (simp_all add: rebind_edge_def Let_def)

text \<open>
  A node whose id is a name of \<^verbatim>\<open>Object.prototype\<close> gets no default text while the
  dictionary has no own entry for it, because the id does not read as \<^verbatim>\<open>undefined\<close>.
\<close>

lemma no_default_for_inherited_name:
  "prompts w ''toString'' = None \<Longrightarrow>
   ensure_text \<lparr>node_id = ''toString'', node_type = ''llm'', output_key = []\<rparr> w = w"
  by (simp add: ensure_text_def get_property_def object_prototype_names_def)

lemma move_key_own:
  assumes "m oldId = Some v" and "newId \<noteq> ''__proto__'' \<or> m newId \<noteq> None"
  shows "move_key oldId newId m = (m(newId \<mapsto> v))(oldId := None)"
  using assms by (auto simp: move_key_def get_property_def set_property_def)

lemma renderEditor_keeps_named_selection:
  assumes "n \<in> set (nodes (config w))" and "editable n" and "node_id n = p" and "p \<noteq> []"
  shows "snd (renderEditor w (Some p)) = Some p"
proof -
  have "n \<in> set (filter editable (nodes (config w)))"
    using assms(1,2) by simp
  then have "p \<in> set (map node_id (filter editable (nodes (config w))))"
    using assms(3) by force
  then show ?thesis
    using assms(4)
    by (cases "filter editable (nodes (config w))") (simp_all add: renderEditor_def keeps_selection_def)
qed

lemmas handler_defs = nodesList_change_def renameNode_def renderAll_def renderEditor_def
      rebind_edge_def move_key_def editable_def ensure_text_def keeps_selection_def Let_def
      nodesList_click_delete_def removeNode_def add_node_click_def
      get_property_def set_property_def object_prototype_names_def

subsection \<open>Renaming\<close>

text \<open>
  What one call of the handler does. Let the node at index \<open>i\<close> of a loaded workflow have
  id \<open>oldId\<close>. The whole rebinding happens before the re-rendering: the node carries
  \<open>newId\<close>; the edge list keeps its length, and each edge has \<open>newId\<close> wherever it had \<open>oldId\<close>
  as source or target and is otherwise unchanged; the entry point is \<open>newId\<close> if it was
  \<open>oldId\<close>; the selection is \<open>newId\<close> if it was \<open>oldId\<close>. An own entry of \<open>oldId\<close> is found under
  \<open>newId\<close>, and no longer under \<open>oldId\<close>, when \<open>newId\<close> differs from \<open>oldId\<close> and is not
  \<^verbatim>\<open>__proto__\<close>. The state the handler returns is the re-rendering of that one state, with
  the same configuration and the moved entries still in place.
\<close>

lemma renameNode_effects:
  assumes "currentWorkflow s = Some w"
    and "i < length (nodes (config w))"
    and "node_id (nodes (config w) ! i) = oldId"
  shows "\<exists>w' s'' w''.
      currentWorkflow (renameNode i newId w s) = Some w'
    \<and> nodes (config w') = (nodes (config w))[i := (nodes (config w) ! i)\<lparr>node_id := newId\<rparr>]
    \<and> length (edges (config w')) = length (edges (config w))
    \<and> (\<forall>k < length (edges (config w)).
          source (edges (config w') ! k) =
            (if source (edges (config w) ! k) = oldId then newId else source (edges (config w) ! k))
        \<and> target (edges (config w') ! k) =
            (if target (edges (config w) ! k) = oldId then newId else target (edges (config w) ! k))
        \<and> conditional (edges (config w') ! k) = conditional (edges (config w) ! k))
    \<and> entry_point (config w') =
          (if entry_point (config w) = oldId then newId else entry_point (config w))
    \<and> (newId \<noteq> oldId \<and> newId \<noteq> ''__proto__'' \<longrightarrow>
          (\<forall>t. prompts w oldId = Some t \<longrightarrow> prompts w' newId = Some t \<and> prompts w' oldId = None)
        \<and> (\<forall>t. scripts w oldId = Some t \<longrightarrow> scripts w' newId = Some t \<and> scripts w' oldId = None))
    \<and> selectedPrompt (renameNode i newId w s) =
          (if selectedPrompt s = Some oldId then Some newId else selectedPrompt s)
    \<and> nodesList_change i (NodeIdInput newId) s = Inr s''
    \<and> s'' = renderAll (renameNode i newId w s)
    \<and> currentWorkflow s'' = Some w''
    \<and> config w'' = config w'
    \<and> (newId \<noteq> oldId \<and> newId \<noteq> ''__proto__'' \<longrightarrow>
          (\<forall>t. prompts w oldId = Some t \<longrightarrow> prompts w'' newId = Some t)
        \<and> (\<forall>t. scripts w oldId = Some t \<longrightarrow> scripts w'' newId = Some t))
    \<and> (selectedPrompt s = Some oldId \<and> editable (nodes (config w) ! i) \<and> newId \<noteq> [] \<longrightarrow>
          selectedPrompt s'' = Some newId)"
proof -
  let ?s1 = "renameNode i newId w s"
  let ?n' = "(nodes (config w) ! i)\<lparr>node_id := newId\<rparr>"
  obtain w' where w': "currentWorkflow ?s1 = Some w'"
    and ns: "nodes (config w') = (nodes (config w))[i := ?n']"
    and es: "edges (config w') = map (rebind_edge oldId newId) (edges (config w))"
    and ep: "entry_point (config w') =
          (if entry_point (config w) = oldId then newId else entry_point (config w))"
    and pr: "prompts w' = move_key oldId newId (prompts w)"
    and sc: "scripts w' = move_key oldId newId (scripts w)"
    and sel: "selectedPrompt ?s1 = (if selectedPrompt s = Some oldId then Some newId else selectedPrompt s)"
    using assms(3) by (simp add: renameNode_def Let_def)
  let ?w'' = "fst (renderEditor w' (selectedPrompt ?s1))"
  have handler: "nodesList_change i (NodeIdInput newId) s = Inr (renderAll ?s1)"
    using assms(1,2) by (simp add: nodesList_change_def)
  have loaded: "currentWorkflow (renderAll ?s1) = Some ?w''"
    using w' by (rule renderAll_loaded)
  have moved_p: "prompts w' newId = Some t \<and> prompts w' oldId = None"
    if "newId \<noteq> oldId \<and> newId \<noteq> ''__proto__''" "prompts w oldId = Some t" for t
    using move_key_own [of "prompts w" oldId t newId] that by (simp add: pr)
  have moved_s: "scripts w' newId = Some t \<and> scripts w' oldId = None"
    if "newId \<noteq> oldId \<and> newId \<noteq> ''__proto__''" "scripts w oldId = Some t" for t
    using move_key_own [of "scripts w" oldId t newId] that by (simp add: sc)
  have texts: "(\<forall>t. prompts w oldId = Some t \<longrightarrow> prompts w' newId = Some t \<and> prompts w' oldId = None)
        \<and> (\<forall>t. scripts w oldId = Some t \<longrightarrow> scripts w' newId = Some t \<and> scripts w' oldId = None)"
    if "newId \<noteq> oldId \<and> newId \<noteq> ''__proto__''"
    using moved_p [OF that] moved_s [OF that] by blast
  have texts'': "(\<forall>t. prompts w oldId = Some t \<longrightarrow> prompts ?w'' newId = Some t)
        \<and> (\<forall>t. scripts w oldId = Some t \<longrightarrow> scripts ?w'' newId = Some t)"
    if "newId \<noteq> oldId \<and> newId \<noteq> ''__proto__''"
    using texts [OF that] renderEditor_keeps_prompt renderEditor_keeps_script by blast
  have sel'': "selectedPrompt (renderAll ?s1) = Some newId"
    if "selectedPrompt s = Some oldId" "editable (nodes (config w) ! i)" "newId \<noteq> []"
  proof -
    have mem: "?n' \<in> set (nodes (config w'))"
      using assms(2) by (simp add: ns set_update_memI)
    have ed: "editable ?n'"
      using that(2) by (simp add: editable_def)
    have "selectedPrompt ?s1 = Some newId"
      using that(1) by (simp add: sel)
    then have "selectedPrompt (renderAll ?s1) = snd (renderEditor w' (Some newId))"
      using w' by (simp add: renderAll_def)
    also have "\<dots> = Some newId"
      using mem ed _ that(3) by (rule renderEditor_keeps_named_selection) simp
    finally show ?thesis .
  qed
  have edges: "\<forall>k < length (edges (config w)).
          source (edges (config w') ! k) =
            (if source (edges (config w) ! k) = oldId then newId else source (edges (config w) ! k))
        \<and> target (edges (config w') ! k) =
            (if target (edges (config w) ! k) = oldId then newId else target (edges (config w) ! k))
        \<and> conditional (edges (config w') ! k) = conditional (edges (config w) ! k)"
    by (simp add: es rebind_edge_fields)
  have len: "length (edges (config w')) = length (edges (config w))"
    by (simp add: es)
  have cfg: "config ?w'' = config w'"
    by simp
  from w' ns len edges ep texts sel handler loaded cfg texts'' sel'' show ?thesis
    by blast
qed

text \<open>
  Claim C1 says that renaming moves the prompt and the script of the node to the new id
  with identical text, for every rename of an existing node. The handler assigns
  \<^verbatim>\<open>m[newId] = m[oldId]\<close> and then deletes \<^verbatim>\<open>m[oldId]\<close>, without comparing the two ids: run
  with the id the node already has, it stores the prompt under the id and then deletes
  that very key. In the example graph the prompt \<^verbatim>\<open>hi\<close> of node \<^verbatim>\<open>a\<close> is gone after the
  rebinding, and the re-rendering puts the empty default text in its place.
\<close>

theorem rename_to_same_id_loses_prompt:
  "prompts demo_workflow ''a'' = Some (Text ''hi'')
   \<and> prompts (the (currentWorkflow (renameNode 0 ''a'' demo_workflow demo_state))) ''a'' = None
   \<and> nodesList_change 0 (NodeIdInput ''a'') demo_state =
       Inr \<lparr>currentWorkflow = Some (demo_workflow\<lparr>prompts := [''a'' \<mapsto> Text []]\<rparr>),
            selectedPrompt = Some ''a''\<rparr>"
  by (simp add: handler_defs demo_workflow_def demo_state_def)

text \<open>
  The same assignment loses the text when the new id is \<^verbatim>\<open>__proto__\<close>: the assignment runs
  the setter of \<^verbatim>\<open>Object.prototype\<close>, which ignores a text, and the old key is deleted all
  the same. The re-rendering stores no default either, since \<^verbatim>\<open>__proto__\<close> does not read as
  \<^verbatim>\<open>undefined\<close>.
\<close>

lemma rename_to_proto_loses_prompt:
  "nodesList_change 0 (NodeIdInput ''__proto__'') demo_state =
     Inr \<lparr>currentWorkflow = Some (demo_workflow
            \<lparr>config := \<lparr>entry_point = ''__proto__'', final_output_key = [],
                        nodes = [\<lparr>node_id = ''__proto__'', node_type = ''llm'', output_key = []\<rparr>,
                                 \<lparr>node_id = ''b'', node_type = ''join'', output_key = []\<rparr>],
                        edges = [\<lparr>source = ''__proto__'', target = ''b'', conditional = False\<rparr>]\<rparr>,
              prompts := Map.empty\<rparr>),
          selectedPrompt = Some ''__proto__''\<rparr>"
  by (simp add: handler_defs demo_workflow_def demo_state_def)

text \<open>
  Claim C10. Renaming the node with id \<open>oldId\<close> to the id \<open>newId\<close> of another node, when both
  ids have an entry in a dictionary: after the rebinding, and still after the handler has
  re-rendered, \<open>newId\<close> holds the text that \<open>oldId\<close> had; and unless the two texts were equal,
  the text that \<open>newId\<close> had is stored, after the rebinding, only under keys that already
  held it before, and not under \<open>newId\<close>. The same holds for prompts and for scripts.
\<close>

theorem rename_onto_existing_id_overwrites_text:
  assumes "currentWorkflow s = Some w"
    and "i < length (nodes (config w))" and "node_id (nodes (config w) ! i) = oldId"
    and "j < length (nodes (config w))" and "j \<noteq> i" and "node_id (nodes (config w) ! j) = newId"
    and "newId \<noteq> oldId"
  shows "\<exists>w1 s' w'.
      currentWorkflow (renameNode i newId w s) = Some w1
    \<and> nodesList_change i (NodeIdInput newId) s = Inr s' \<and> currentWorkflow s' = Some w'
    \<and> (\<forall>t t'. prompts w oldId = Some t \<and> prompts w newId = Some t' \<longrightarrow>
          prompts w1 newId = Some t \<and> prompts w' newId = Some t
        \<and> (t' \<noteq> t \<longrightarrow> (\<forall>k. prompts w1 k = Some t' \<longrightarrow> k \<noteq> newId \<and> prompts w k = Some t')))
    \<and> (\<forall>t t'. scripts w oldId = Some t \<and> scripts w newId = Some t' \<longrightarrow>
          scripts w1 newId = Some t \<and> scripts w' newId = Some t
        \<and> (t' \<noteq> t \<longrightarrow> (\<forall>k. scripts w1 k = Some t' \<longrightarrow> k \<noteq> newId \<and> scripts w k = Some t')))"
proof -
  let ?s1 = "renameNode i newId w s"
  obtain w1 where w1: "currentWorkflow ?s1 = Some w1"
    and p1: "prompts w1 = move_key oldId newId (prompts w)"
    and q1: "scripts w1 = move_key oldId newId (scripts w)"
    using assms(3) by (simp add: renameNode_def Let_def)
  have handler: "nodesList_change i (NodeIdInput newId) s = Inr (renderAll ?s1)"
    using assms(1,2) by (simp add: nodesList_change_def)
  have loaded: "currentWorkflow (renderAll ?s1) = Some (fst (renderEditor w1 (selectedPrompt ?s1)))"
    using w1 by (rule renderAll_loaded)
  have pr: "prompts w1 newId = Some t \<and> prompts (fst (renderEditor w1 (selectedPrompt ?s1))) newId = Some t
      \<and> (t' \<noteq> t \<longrightarrow> (\<forall>k. prompts w1 k = Some t' \<longrightarrow> k \<noteq> newId \<and> prompts w k = Some t'))"
    if "prompts w oldId = Some t" "prompts w newId = Some t'" for t t'
  proof -
    have moved: "prompts w1 = ((prompts w)(newId \<mapsto> t))(oldId := None)"
      using move_key_own [of "prompts w" oldId t newId] that by (simp add: p1)
    have a: "prompts w1 newId = Some t"
      using assms(7) by (simp add: moved)
    have b: "\<forall>k. prompts w1 k = Some t' \<longrightarrow> k \<noteq> newId \<and> prompts w k = Some t'" if "t' \<noteq> t"
      using that by (auto simp: moved split: if_splits)
    show ?thesis
      using a b renderEditor_keeps_prompt [OF a] by blast
  qed
  have sc: "scripts w1 newId = Some t \<and> scripts (fst (renderEditor w1 (selectedPrompt ?s1))) newId = Some t
      \<and> (t' \<noteq> t \<longrightarrow> (\<forall>k. scripts w1 k = Some t' \<longrightarrow> k \<noteq> newId \<and> scripts w k = Some t'))"
    if "scripts w oldId = Some t" "scripts w newId = Some t'" for t t'
  proof -
    have moved: "scripts w1 = ((scripts w)(newId \<mapsto> t))(oldId := None)"
      using move_key_own [of "scripts w" oldId t newId] that by (simp add: q1)
    have a: "scripts w1 newId = Some t"
      using assms(7) by (simp add: moved)
    have b: "\<forall>k. scripts w1 k = Some t' \<longrightarrow> k \<noteq> newId \<and> scripts w k = Some t'" if "t' \<noteq> t"
      using that by (auto simp: moved split: if_splits)
    show ?thesis
      using a b renderEditor_keeps_script [OF a] by blast
  qed
  show ?thesis
    using w1 handler loaded pr sc by blast
qed

text \<open>
  An instance of C10. Two \<^verbatim>\<open>llm\<close> nodes \<^verbatim>\<open>a\<close> and \<^verbatim>\<open>b\<close> with the prompts \<^verbatim>\<open>first\<close> and \<^verbatim>\<open>second\<close>: renaming \<^verbatim>\<open>a\<close> to
  \<^verbatim>\<open>b\<close> leaves \<^verbatim>\<open>first\<close> under \<^verbatim>\<open>b\<close>, and \<^verbatim>\<open>second\<close> under no key.
\<close>

theorem rename_onto_existing_id_demo:
  "currentWorkflow two_prompts_state = Some two_prompts_workflow
   \<and> node_id (nodes (config two_prompts_workflow) ! 0) = ''a''
   \<and> node_id (nodes (config two_prompts_workflow) ! 1) = ''b''
   \<and> prompts two_prompts_workflow ''a'' = Some (Text ''first'')
   \<and> prompts two_prompts_workflow ''b'' = Some (Text ''second'')
   \<and> (\<exists>s' w'. nodesList_change 0 (NodeIdInput ''b'') two_prompts_state = Inr s'
         \<and> currentWorkflow s' = Some w' \<and> prompts w' ''b'' = Some (Text ''first''))
   \<and> (\<exists>w1. currentWorkflow (renameNode 0 ''b'' two_prompts_workflow two_prompts_state) = Some w1
         \<and> prompts w1 ''b'' = Some (Text ''first'') \<and> (\<forall>k. prompts w1 k \<noteq> Some (Text ''second'')))"
proof -
  have h1: "currentWorkflow two_prompts_state = Some two_prompts_workflow"
    by (simp add: two_prompts_state_def)
  have h2: "0 < length (nodes (config two_prompts_workflow))"
    and h3: "node_id (nodes (config two_prompts_workflow) ! 0) = ''a''"
    and h4: "1 < length (nodes (config two_prompts_workflow))"
    and h5: "(1::nat) \<noteq> 0"
    and h6: "node_id (nodes (config two_prompts_workflow) ! 1) = ''b''"
    and h7: "''b'' \<noteq> ''a''"
    and pa: "prompts two_prompts_workflow ''a'' = Some (Text ''first'')"
    and pb: "prompts two_prompts_workflow ''b'' = Some (Text ''second'')"
    by (simp_all add: two_prompts_workflow_def)
  have only_b: "k = ''b''" if "prompts two_prompts_workflow k = Some (Text ''second'')" for k
    using that by (simp add: two_prompts_workflow_def split: if_splits)
  from rename_onto_existing_id_overwrites_text [OF h1 h2 h3 h4 h5 h6 h7]
  obtain w1 s' w' where
      "currentWorkflow (renameNode 0 ''b'' two_prompts_workflow two_prompts_state) = Some w1"
      "nodesList_change 0 (NodeIdInput ''b'') two_prompts_state = Inr s'" "currentWorkflow s' = Some w'"
      "\<forall>t t'. prompts two_prompts_workflow ''a'' = Some t \<and> prompts two_prompts_workflow ''b'' = Some t' \<longrightarrow>
          prompts w1 ''b'' = Some t \<and> prompts w' ''b'' = Some t
        \<and> (t' \<noteq> t \<longrightarrow> (\<forall>k. prompts w1 k = Some t' \<longrightarrow> k \<noteq> ''b'' \<and> prompts two_prompts_workflow k = Some t'))"
    by blast
  moreover from this(4) pa pb
  have "prompts w1 ''b'' = Some (Text ''first'') \<and> prompts w' ''b'' = Some (Text ''first'')
        \<and> (\<forall>k. prompts w1 k = Some (Text ''second'') \<longrightarrow> k \<noteq> ''b'' \<and> prompts two_prompts_workflow k = Some (Text ''second''))"
    by simp
  ultimately show ?thesis
    using h1 h3 h6 pa pb only_b by blast
qed

text \<open>
  Claim C3, as amended. The rename has no failure mode at all: for every new id, the
  empty string and an id another node already has included, the handler returns
  normally for an existing index, the node at that index carries the new id, and every
  other node is as it was. (The handler has no check of the new id and no error value.)
\<close>

theorem rename_has_no_failure_mode:
  assumes "currentWorkflow s = Some w" and "i < length (nodes (config w))"
  shows "\<exists>s' w'. nodesList_change i (NodeIdInput newId) s = Inr s' \<and> currentWorkflow s' = Some w'
    \<and> length (nodes (config w')) = length (nodes (config w))
    \<and> node_id (nodes (config w') ! i) = newId
    \<and> (\<forall>j < length (nodes (config w)). j \<noteq> i \<longrightarrow> nodes (config w') ! j = nodes (config w) ! j)"
proof -
  let ?s1 = "renameNode i newId w s"
  obtain w1 where w1: "currentWorkflow ?s1 = Some w1"
    and n1: "nodes (config w1) = (nodes (config w))[i := (nodes (config w) ! i)\<lparr>node_id := newId\<rparr>]"
    by (simp add: renameNode_def Let_def)
  have handler: "nodesList_change i (NodeIdInput newId) s = Inr (renderAll ?s1)"
    using assms by (simp add: nodesList_change_def)
  have loaded: "currentWorkflow (renderAll ?s1) = Some (fst (renderEditor w1 (selectedPrompt ?s1)))"
    using w1 by (rule renderAll_loaded)
  have "nodes (config (fst (renderEditor w1 (selectedPrompt ?s1)))) =
      (nodes (config w))[i := (nodes (config w) ! i)\<lparr>node_id := newId\<rparr>]"
    by (simp add: n1)
  with handler loaded assms(2) show ?thesis
    by simp
qed

text \<open>
  Instances of C3 as amended: in the example graph, node \<^verbatim>\<open>a\<close> can be renamed to the empty string, and to \<^verbatim>\<open>b\<close>, after
  which two nodes are called \<^verbatim>\<open>b\<close>.
\<close>

theorem rename_to_empty_or_taken_id_succeeds:
  "currentWorkflow demo_state = Some demo_workflow \<and> 0 < length (nodes (config demo_workflow))
   \<and> (\<exists>s' w'. nodesList_change 0 (NodeIdInput []) demo_state = Inr s' \<and> currentWorkflow s' = Some w'
         \<and> node_id (nodes (config w') ! 0) = [])
   \<and> (\<exists>s' w'. nodesList_change 0 (NodeIdInput ''b'') demo_state = Inr s' \<and> currentWorkflow s' = Some w'
         \<and> node_id (nodes (config w') ! 0) = ''b'' \<and> node_id (nodes (config w') ! 1) = ''b'')"
proof -
  have h1: "currentWorkflow demo_state = Some demo_workflow"
    by (simp add: demo_state_def)
  have h2: "0 < length (nodes (config demo_workflow))"
    by (simp add: demo_workflow_def)
  have b: "node_id (nodes (config demo_workflow) ! 1) = ''b''" "length (nodes (config demo_workflow)) = 2"
    by (simp_all add: demo_workflow_def)
  from rename_has_no_failure_mode [OF h1 h2, of "[]"]
  have empty: "\<exists>s' w'. nodesList_change 0 (NodeIdInput []) demo_state = Inr s' \<and> currentWorkflow s' = Some w'
         \<and> node_id (nodes (config w') ! 0) = []"
    by blast
  from rename_has_no_failure_mode [OF h1 h2, of "''b''"] b
  have taken: "\<exists>s' w'. nodesList_change 0 (NodeIdInput ''b'') demo_state = Inr s' \<and> currentWorkflow s' = Some w'
         \<and> node_id (nodes (config w') ! 0) = ''b'' \<and> node_id (nodes (config w') ! 1) = ''b''"
    by fastforce
  from h1 h2 empty taken show ?thesis
    by blast
qed

text \<open>
  Claim C3 as stated fails: the empty new id is not refused and the model does not stay
  as it was. The node, its edge, the entry point, the prompt key and the selection all
  carry the empty id afterwards.
\<close>

theorem rename_to_empty_id_changes_model:
  "nodesList_change 0 (NodeIdInput []) demo_state =
     Inr \<lparr>currentWorkflow = Some (demo_workflow
            \<lparr>config := \<lparr>entry_point = [], final_output_key = [],
                        nodes = [\<lparr>node_id = [], node_type = ''llm'', output_key = []\<rparr>,
                                 \<lparr>node_id = ''b'', node_type = ''join'', output_key = []\<rparr>],
                        edges = [\<lparr>source = [], target = ''b'', conditional = False\<rparr>]\<rparr>,
              prompts := [[] \<mapsto> Text ''hi'']\<rparr>),
          selectedPrompt = Some []\<rparr>
   \<and> nodesList_change 0 (NodeIdInput []) demo_state \<noteq> Inr demo_state"
  by (simp add: handler_defs demo_workflow_def demo_state_def)

subsection \<open>Removing\<close>

text \<open>
  Claim C2 says that removing the node the entry point names clears the entry point.
  The handler does not: deleting node \<^verbatim>\<open>a\<close> of the example graph removes the node, its
  edge, its prompt and the selection, and leaves \<^verbatim>\<open>entry_point\<close> naming \<^verbatim>\<open>a\<close>, which is no
  longer a node.
\<close>

theorem delete_entry_node_keeps_entry_point:
  "entry_point (config demo_workflow) = ''a''
   \<and> node_id (nodes (config demo_workflow) ! 0) = ''a''
   \<and> nodesList_click_delete 0 demo_state =
       Inr \<lparr>currentWorkflow = Some (demo_workflow
              \<lparr>config := \<lparr>entry_point = ''a'', final_output_key = [],
                          nodes = [\<lparr>node_id = ''b'', node_type = ''join'', output_key = []\<rparr>],
                          edges = []\<rparr>,
                prompts := Map.empty\<rparr>),
            selectedPrompt = None\<rparr>
   \<and> result_ids (nodesList_click_delete 0 demo_state) = [''b'']"
  by (simp add: handler_defs demo_workflow_def demo_state_def result_ids_def node_ids_def)

text \<open>
  What the removal does in general: the node at the index is spliced out, the edges that
  touch its id are filtered away, both dictionary keys are deleted, the selection no
  longer names the id, and the entry point is whatever it was.
\<close>

lemma removeNode_cascade:
  assumes "currentWorkflow s = Some w" and "i < length (nodes (config w))"
    and "node_id (nodes (config w) ! i) = nid"
  shows "\<exists>w'. nodesList_click_delete i s = Inr (renderAll (removeNode i w s))
    \<and> currentWorkflow (removeNode i w s) = Some w'
    \<and> nodes (config w') = take i (nodes (config w)) @ drop (Suc i) (nodes (config w))
    \<and> edges (config w') = filter (\<lambda>e. source e \<noteq> nid \<and> target e \<noteq> nid) (edges (config w))
    \<and> prompts w' nid = None \<and> scripts w' nid = None
    \<and> selectedPrompt (removeNode i w s) \<noteq> Some nid
    \<and> entry_point (config w') = entry_point (config w)"
  using assms by (simp add: nodesList_click_delete_def removeNode_def Let_def)

subsection \<open>Adding\<close>

lemma newNodeId_5: "newNodeId 5 = ''node_5''"
  by code_simp

text \<open>
  Claim C4, as amended. Adding a node returns normally whenever a workflow is loaded and
  appends one \<^verbatim>\<open>llm\<close> node with empty output key whose id is \<^verbatim>\<open>node_\<close> followed by the clock
  reading; edges and entry point are untouched. The ids are pairwise distinct afterwards
  exactly when they were before and no node already had the generated id: the handler
  itself compares nothing.
\<close>

theorem add_node_appends_timestamp_id:
  assumes "currentWorkflow s = Some w"
  shows "\<exists>s' w'. add_node_click now s = Inr s' \<and> currentWorkflow s' = Some w'
    \<and> nodes (config w') = nodes (config w) @ [\<lparr>node_id = newNodeId now, node_type = ''llm'', output_key = []\<rparr>]
    \<and> edges (config w') = edges (config w)
    \<and> entry_point (config w') = entry_point (config w)
    \<and> (distinct (map node_id (nodes (config w'))) \<longleftrightarrow>
         distinct (map node_id (nodes (config w))) \<and> newNodeId now \<notin> set (map node_id (nodes (config w))))"
  using assms by (auto simp: add_node_click_def renderAll_def)

text \<open>
  An instance of C4 as amended: adding a node to the example graph at clock reading 5.
\<close>

theorem add_node_demo:
  "currentWorkflow demo_state = Some demo_workflow
   \<and> result_ids (add_node_click 5 demo_state) = [''a'', ''b'', ''node_5'']
   \<and> distinct (result_ids (add_node_click 5 demo_state))"
proof -
  have h1: "currentWorkflow demo_state = Some demo_workflow"
    by (simp add: demo_state_def)
  from add_node_appends_timestamp_id [OF h1, of 5]
  obtain s' w' where "add_node_click 5 demo_state = Inr s'" "currentWorkflow s' = Some w'"
    "nodes (config w') = nodes (config demo_workflow) @ [\<lparr>node_id = newNodeId 5, node_type = ''llm'', output_key = []\<rparr>]"
    by blast
  then show ?thesis
    using h1 by (simp add: result_ids_def node_ids_def demo_workflow_def newNodeId_5)
qed

text \<open>
  Claim C4 as stated fails: two additions at the same clock reading give two nodes with
  the same id, although the ids were distinct before.
\<close>

theorem add_node_twice_same_timestamp_duplicates:
  "distinct (node_ids demo_state)
   \<and> result_ids (and_then (add_node_click 5 demo_state) (add_node_click 5))
       = [''a'', ''b'', ''node_5'', ''node_5'']
   \<and> \<not> distinct (result_ids (and_then (add_node_click 5 demo_state) (add_node_click 5)))"
  by (simp add: handler_defs and_then_def result_ids_def node_ids_def demo_workflow_def
      demo_state_def newNodeId_5)

section \<open>Properties of the diagram text\<close>

lemma push_node_append: "push_node g n = g @ node_statements n"
  by (simp add: node_statements_def push_node_def)

lemma foldl_push_node: "foldl push_node g ns = g @ concat (map node_statements ns)"
  by (induction ns arbitrary: g) (simp_all add: push_node_append)

lemma foldl_push_edge: "foldl push_edge g es = g @ map edge_statement es"
  by (induction es arbitrary: g) (simp_all add: push_edge_def)

lemma escape_quot_no_quote: "CHR 0x22 \<notin> set (escape_quot str)"
  by (induction str) (simp_all add: escape_quot_def)

lemma nodeLabel_keeps_quote: "CHR 0x22 \<in> set (node_id n) \<Longrightarrow> CHR 0x22 \<in> set (nodeLabel n)"
  by (simp add: nodeLabel_def)

text \<open>
  Claim C9, as amended. The statements of the diagram are, in this order: the header; for
  each node in array order exactly one shape statement (a diamond for a \<^verbatim>\<open>join\<close> node, a
  box for every other type), followed for a \<^verbatim>\<open>python\<close> node by that node's own style
  statement; then one highlight statement exactly when the entry point is a non-empty
  string, naming the entry point as it is stored, whether or not a node has that id; then
  one statement per edge.
\<close>

theorem graphDefinition_layout:
  "graphDefinition c =
     ''graph TD'' # concat (map node_statements (nodes c))
       @ (if entry_point c = [] then [] else [entry_style_statement (entry_point c)])
       @ map edge_statement (edges c)
   \<and> list_all (\<lambda>n. node_statements n =
          (if node_type n = ''join'' then diamond_statement n else box_statement n)
            # (if node_type n = ''python'' then [python_style_statement n] else [])) (nodes c)"
  by (simp add: graphDefinition_def Let_def foldl_push_node foldl_push_edge node_statements_def
      push_node_def list_all_iff)

text \<open>
  Claim C9 as stated fails for an entry point that names no node: in the configuration
  left by deleting node \<^verbatim>\<open>a\<close> of the example graph, the diagram still has the highlight
  statement for \<^verbatim>\<open>a\<close>.
\<close>

theorem highlight_for_missing_node:
  "''a'' \<notin> set (map node_id (nodes dangling_entry_config))
   \<and> graphDefinition dangling_entry_config =
       [''graph TD'',
        ''  b{'' @ [CHR 0x22] @ ''b<br/><i>(join)</i>'' @ [CHR 0x22] @ ''}'',
        ''  style a fill:#e9f7ef,stroke:#27ae60,stroke-width:2px'']"
  by (simp add: dangling_entry_config_def graphDefinition_def push_node_def diamond_statement_def
      nodeLabel_def escape_quot_def dquote_def entry_style_statement_def)

text \<open>
  Claim C8 says that a double quote in a node id is escaped everywhere the id enters the
  diagram text. The code escapes the identifier in front of the shape and the ends of an
  edge, but builds the label from the raw id and writes the raw entry point into the
  highlight statement: for the node id \<^verbatim>\<open>a"b\<close> the label between the quotes of the box
  holds a raw double quote, and so does the highlight statement.
\<close>

theorem quote_reaches_label_payload:
  "nodeLabel quoted_node = ''a'' @ [CHR 0x22] @ ''b<br/><i>(llm)</i>''
   \<and> CHR 0x22 \<in> set (nodeLabel quoted_node)
   \<and> graphDefinition quoted_config =
       [''graph TD'',
        ''  a#quot;b['' @ [CHR 0x22] @ ''a'' @ [CHR 0x22] @ ''b<br/><i>(llm)</i>'' @ [CHR 0x22] @ '']'',
        ''  style a'' @ [CHR 0x22] @ ''b fill:#e9f7ef,stroke:#27ae60,stroke-width:2px'']
   \<and> renderGraph quoted_state =
       MermaidRender (''graph TD'' @ [CHR 0x0A] @
         ''  a#quot;b['' @ [CHR 0x22] @ ''a'' @ [CHR 0x22] @ ''b<br/><i>(llm)</i>'' @ [CHR 0x22] @ '']'' @
         [CHR 0x0A] @
         ''  style a'' @ [CHR 0x22] @ ''b fill:#e9f7ef,stroke:#27ae60,stroke-width:2px'')"
  by (simp add: quoted_state_def renderGraph_def quoted_config_def quoted_node_def graphDefinition_def
      push_node_def box_statement_def nodeLabel_def escape_quot_def dquote_def
      entry_style_statement_def)

section \<open>Properties of the autosave scheduler\<close>

lemma earliest_mem: "earliest ys = Some y \<Longrightarrow> y \<in> set ys"
  by (induction ys arbitrary: y) (auto split: option.splits if_splits)

lemma earliest_None: "earliest ys = None \<longleftrightarrow> ys = []"
  by (induction ys) (auto split: option.splits)

lemma earliest_least: "earliest ys = Some y \<Longrightarrow> z \<in> set ys \<Longrightarrow> due y \<le> due z"
proof (induction ys arbitrary: y)
  case Nil
  then show ?case by simp
next
  case (Cons a ys)
  show ?case
  proof (cases "earliest ys")
    case None
    then have "ys = []" by (simp add: earliest_None)
    with Cons.prems show ?thesis by simp
  next
    case (Some b)
    from Cons.IH [OF Some] have b: "z \<in> set ys \<Longrightarrow> due b \<le> due z" .
    from Cons.prems Some b show ?thesis
      by (auto split: if_splits)
  qed
qed

lemma next_timer_due:
  assumes "earliest (filter (\<lambda>x. due x \<le> t) (timers p)) = Some x"
  shows "x \<in> set (timers p)" and "due x \<le> t"
  using earliest_mem [OF assms] by simp_all

lemma pending_saves_remove_other:
  "callback x \<noteq> Later \<Longrightarrow>
   filter (\<lambda>y. callback y = Later) (remove1 x xs) = filter (\<lambda>y. callback y = Later) xs"
  by (induction xs) auto

lemma fire_ClearStatus:
  assumes "callback x = ClearStatus"
  shows "requests (fire x p) = requests p"
    and "pending_saves (fire x p) = pending_saves p"
    and "timeout (fire x p) = timeout p"
    and "current_id (fire x p) = current_id p"
    and "clock (fire x p) = max (clock p) (due x)"
  using assms
  by (simp_all add: fire_def clear_status_def updateSaveStatus_def pending_saves_def
      pending_saves_remove_other)

lemma run_until_quiet:
  assumes "\<forall>x \<in> set (pending_saves p). t < due x"
  shows "requests (run_until t p) = requests p
       \<and> pending_saves (run_until t p) = pending_saves p
       \<and> timeout (run_until t p) = timeout p
       \<and> current_id (run_until t p) = current_id p
       \<and> clock (run_until t p) = max (clock p) t"
  using assms
proof (induction t p rule: run_until.induct)
  case (1 t p)
  show ?case
  proof (cases "earliest (filter (\<lambda>x. due x \<le> t) (timers p))")
    case None
    then show ?thesis
      by (simp add: run_until.simps [of t p] pending_saves_def)
  next
    case (Some x)
    have x: "x \<in> set (timers p)" "due x \<le> t"
      using next_timer_due [OF Some] by simp_all
    have "callback x \<noteq> Later"
      using x "1.prems" by (auto simp: pending_saves_def)
    then have cs: "callback x = ClearStatus"
      by (cases "callback x") simp_all
    have "\<forall>y \<in> set (pending_saves (fire x p)). t < due y"
      using "1.prems" by (simp add: fire_ClearStatus [OF cs])
    from "1.IH" [OF Some this] x(2) show ?thesis
      by (simp add: run_until.simps [of t p] Some fire_ClearStatus [OF cs] max.assoc max_absorb2)
  qed
qed

lemma pending_save_mem:
  assumes "pending_saves p = [s]"
  shows "s \<in> set (timers p)" and "callback s = Later"
proof -
  have "s \<in> set (pending_saves p)"
    by (simp add: assms)
  then show "s \<in> set (timers p)" and "callback s = Later"
    by (simp_all add: pending_saves_def)
qed

lemma saveWorkflow_begin_issues:
  assumes "current_id p = Some wid" and "wid \<noteq> []"
  shows "requests (saveWorkflow_begin p) = requests p @ [clock p]"
    and "pending_saves p = [] \<Longrightarrow> pending_saves (saveWorkflow_begin p) = []"
proof -
  have eq: "saveWorkflow_begin p =
      (updateSaveStatus Saving Secondary (clearTimeout DebouncedSave p))
        \<lparr>requests := requests p @ [clock p]\<rparr>"
    using assms by (simp add: saveWorkflow_begin_def Let_def updateSaveStatus_def clearTimeout_def)
  show "requests (saveWorkflow_begin p) = requests p @ [clock p]"
    by (simp add: eq)
  show "pending_saves (saveWorkflow_begin p) = []" if "pending_saves p = []"
    using that by (simp add: eq pending_saves_def updateSaveStatus_def clearTimeout_def filter_empty_conv)
qed

lemma fire_only_save:
  assumes "pending_saves p = [x]" and "current_id p = Some wid" and "wid \<noteq> []"
  shows "requests (fire x p) = requests p @ [max (clock p) (due x)]"
    and "pending_saves (fire x p) = []"
proof -
  have later: "callback x = Later"
    using pending_save_mem [OF assms(1)] by simp
  let ?p1 = "p\<lparr>timers := remove1 x (timers p), clock := max (clock p) (due x)\<rparr>"
  let ?p2 = "clearTimeout (timeout ?p1) ?p1"
  have "pending_saves ?p1 = remove1 x (pending_saves p)"
    by (simp add: pending_saves_def filter_remove1)
  then have none: "pending_saves ?p1 = []"
    by (simp add: assms(1))
  have none2: "pending_saves ?p2 = []"
    using none by (simp add: pending_saves_def clearTimeout_def filter_empty_conv)
  have id2: "current_id ?p2 = Some wid"
    by (simp add: clearTimeout_def assms(2))
  have p2: "requests ?p2 = requests p" "clock ?p2 = max (clock p) (due x)"
    by (simp_all add: clearTimeout_def)
  have fire: "fire x p = saveWorkflow_begin ?p2"
    by (simp add: fire_def later)
  show "requests (fire x p) = requests p @ [max (clock p) (due x)]"
    unfolding fire saveWorkflow_begin_issues(1) [OF id2 assms(3)] p2 ..
  show "pending_saves (fire x p) = []"
    unfolding fire by (rule saveWorkflow_begin_issues(2) [OF id2 assms(3) none2])
qed

lemma run_until_fires_save:
  assumes "pending_saves p = [s]" and "due s \<le> t" and "clock p \<le> due s"
    and "current_id p = Some wid" and "wid \<noteq> []"
  shows "requests (run_until t p) = requests p @ [due s]"
  using assms
proof (induction t p rule: run_until.induct)
  case (1 t p)
  have s_mem: "s \<in> set (timers p)" and s_later: "callback s = Later"
    using pending_save_mem [OF "1.prems"(1)] by simp_all
  have "s \<in> set (filter (\<lambda>x. due x \<le> t) (timers p))"
    using s_mem "1.prems"(2) by simp
  then have "filter (\<lambda>x. due x \<le> t) (timers p) \<noteq> []"
    by (metis empty_iff empty_set)
  then obtain x where Some: "earliest (filter (\<lambda>x. due x \<le> t) (timers p)) = Some x"
    using earliest_None by (cases "earliest (filter (\<lambda>x. due x \<le> t) (timers p))") auto
  have x: "x \<in> set (timers p)" "due x \<le> t"
    using next_timer_due [OF Some] by simp_all
  have x_le: "due x \<le> due s"
    using earliest_least [OF Some \<open>s \<in> set (filter (\<lambda>x. due x \<le> t) (timers p))\<close>] .
  show ?case
  proof (cases "callback x")
    case Later
    then have "x \<in> set (pending_saves p)"
      using x by (simp add: pending_saves_def)
    then have xs: "x = s"
      using "1.prems"(1) by simp
    have fired: "requests (fire s p) = requests p @ [due s]" "pending_saves (fire s p) = []"
      using fire_only_save [OF "1.prems"(1,4,5)] "1.prems"(3) by (simp_all add: max_absorb2)
    have "requests (run_until t (fire s p)) = requests (fire s p)"
      using run_until_quiet [of "fire s p" t] fired(2) by simp
    then show ?thesis
      by (simp add: run_until.simps [of t p] Some xs fired(1))
  next
    case ClearStatus
    note f = fire_ClearStatus [OF ClearStatus, of p]
    have "requests (run_until t (fire x p)) = requests (fire x p) @ [due s]"
    proof (rule "1.IH" [OF Some])
      show "pending_saves (fire x p) = [s]"
        by (simp add: f "1.prems"(1))
      show "due s \<le> t"
        by (rule "1.prems"(2))
      show "clock (fire x p) \<le> due s"
        using "1.prems"(3) x_le by (simp add: f)
      show "current_id (fire x p) = Some wid"
        by (simp add: f "1.prems"(4))
      show "wid \<noteq> []"
        by (rule "1.prems"(5))
    qed
    then show ?thesis
      by (simp add: run_until.simps [of t p] Some f)
  qed
qed

lemma handleStateChange_restarts:
  assumes "current_id p = Some wid"
    and "\<forall>x \<in> set (pending_saves p). handle x = handle_number (timeout p)"
  shows "pending_saves (handleStateChange p) =
           [\<lparr>handle = next_handle p, due = clock p + debounce_wait, callback = Later\<rparr>]"
    and "timeout (handleStateChange p) = Handle (next_handle p)"
    and "requests (handleStateChange p) = requests p"
    and "current_id (handleStateChange p) = current_id p"
    and "clock (handleStateChange p) = clock p"
    and "status_text (handleStateChange p) = Changed"
proof -
  let ?p1 = "clearTimeout (timeout p) (updateSaveStatus Changed Secondary p)"
  have eq: "handleStateChange p = (setTimeout Later debounce_wait ?p1)\<lparr>timeout := Handle (next_handle ?p1)\<rparr>"
    using assms(1) by (simp add: handleStateChange_def debouncedSave_def Let_def updateSaveStatus_def)
  have cleared: "filter (\<lambda>x. callback x = Later) (timers ?p1) = []"
    using assms(2) by (auto simp: clearTimeout_def updateSaveStatus_def pending_saves_def filter_empty_conv)
  have fields: "next_handle ?p1 = next_handle p" "clock ?p1 = clock p" "requests ?p1 = requests p"
      "current_id ?p1 = current_id p" "status_text ?p1 = Changed"
    by (simp_all add: clearTimeout_def updateSaveStatus_def)
  show "pending_saves (handleStateChange p) =
           [\<lparr>handle = next_handle p, due = clock p + debounce_wait, callback = Later\<rparr>]"
    by (simp add: eq pending_saves_def setTimeout_def cleared fields)
  show "timeout (handleStateChange p) = Handle (next_handle p)"
    by (simp add: eq fields)
  show "requests (handleStateChange p) = requests p"
    by (simp add: eq setTimeout_def fields)
  show "current_id (handleStateChange p) = current_id p"
    by (simp add: eq setTimeout_def fields)
  show "clock (handleStateChange p) = clock p"
    by (simp add: eq setTimeout_def fields)
  show "status_text (handleStateChange p) = Changed"
    by (simp add: eq setTimeout_def fields)
qed

lemma markDirty_at_restarts:
  assumes "current_id p = Some wid"
    and "clock p \<le> t"
    and "\<forall>x \<in> set (pending_saves p). t < due x \<and> handle x = handle_number (timeout p)"
  shows "\<exists>h. pending_saves (markDirty_at t p) = [\<lparr>handle = h, due = t + debounce_wait, callback = Later\<rparr>]
           \<and> timeout (markDirty_at t p) = Handle h"
    and "requests (markDirty_at t p) = requests p"
    and "current_id (markDirty_at t p) = Some wid"
    and "clock (markDirty_at t p) = t"
proof -
  let ?q = "run_until t p"
  have quiet: "requests ?q = requests p" "pending_saves ?q = pending_saves p" "timeout ?q = timeout p"
      "current_id ?q = current_id p" "clock ?q = max (clock p) t"
    using run_until_quiet [of p t] assms(3) by simp_all
  have id: "current_id ?q = Some wid"
    by (simp add: quiet assms(1))
  have named: "\<forall>x \<in> set (pending_saves ?q). handle x = handle_number (timeout ?q)"
    using assms(3) by (simp add: quiet)
  note r = handleStateChange_restarts [OF id named]
  show "\<exists>h. pending_saves (markDirty_at t p) = [\<lparr>handle = h, due = t + debounce_wait, callback = Later\<rparr>]
           \<and> timeout (markDirty_at t p) = Handle h"
    using r(1,2) assms(2) by (simp add: markDirty_at_def quiet max_absorb2)
  show "requests (markDirty_at t p) = requests p"
    by (simp add: markDirty_at_def r(3) quiet)
  show "current_id (markDirty_at t p) = Some wid"
    by (simp add: markDirty_at_def r(4) id)
  show "clock (markDirty_at t p) = t"
    using assms(2) by (simp add: markDirty_at_def r(5) quiet max_absorb2)
qed

lemma burst_keeps_one_timer:
  assumes "current_id p = Some wid"
    and "clock p = t0"
    and "pending_saves p = [\<lparr>handle = h, due = t0 + debounce_wait, callback = Later\<rparr>]"
    and "timeout p = Handle h"
    and "within_window t0 ts"
  shows "current_id (fold markDirty_at ts p) = Some wid
       \<and> clock (fold markDirty_at ts p) = last (t0 # ts)
       \<and> (\<exists>h'. pending_saves (fold markDirty_at ts p) =
                  [\<lparr>handle = h', due = last (t0 # ts) + debounce_wait, callback = Later\<rparr>])
       \<and> requests (fold markDirty_at ts p) = requests p"
  using assms
proof (induction ts arbitrary: p t0 h)
  case Nil
  then show ?case by simp
next
  case (Cons t' ts)
  have le: "t0 \<le> t'" and lt: "t' < t0 + debounce_wait" and rest: "within_window t' ts"
    using Cons.prems(5) by simp_all
  have pend: "\<forall>x \<in> set (pending_saves p). t' < due x \<and> handle x = handle_number (timeout p)"
    using lt by (simp add: Cons.prems(3,4))
  have clk: "clock p \<le> t'"
    using le by (simp add: Cons.prems(2))
  note m = markDirty_at_restarts [OF Cons.prems(1) clk pend]
  from m(1) obtain h' where
    h': "pending_saves (markDirty_at t' p) = [\<lparr>handle = h', due = t' + debounce_wait, callback = Later\<rparr>]"
      "timeout (markDirty_at t' p) = Handle h'"
    by blast
  from Cons.IH [OF m(3) m(4) h' rest] show ?case
    by (simp add: m(2))
qed

text \<open>
  Claim C5. Let a workflow with a non-empty id be loaded and no debounced save be pending.
  For dirty signals at the times \<open>t1 # ts\<close>, each less than the debounce wait after the one
  before, no request is issued while the signals arrive; afterwards exactly one debounce
  timer is pending, due one debounce wait after the last signal (the timers of all earlier
  signals are gone); running the clock to any time before that issues no request; and
  running it to any time from then on issues exactly one request, at that due time.
\<close>

theorem debounced_burst_saves_once:
  assumes "current_id p = Some wid" and "wid \<noteq> []"
    and "pending_saves p = []" and "clock p \<le> t1" and "within_window t1 ts"
  shows "requests (fold markDirty_at (t1 # ts) p) = requests p
    \<and> (\<exists>h. pending_saves (fold markDirty_at (t1 # ts) p) =
              [\<lparr>handle = h, due = last (t1 # ts) + debounce_wait, callback = Later\<rparr>])
    \<and> (\<forall>t. t < last (t1 # ts) + debounce_wait \<longrightarrow>
              requests (run_until t (fold markDirty_at (t1 # ts) p)) = requests p)
    \<and> (\<forall>t. last (t1 # ts) + debounce_wait \<le> t \<longrightarrow>
              requests (run_until t (fold markDirty_at (t1 # ts) p)) =
                requests p @ [last (t1 # ts) + debounce_wait])"
proof -
  define q where "q = fold markDirty_at (t1 # ts) p"
  define d where "d = last (t1 # ts) + debounce_wait"
  have none: "\<forall>x \<in> set (pending_saves p). t1 < due x \<and> handle x = handle_number (timeout p)"
    by (simp add: assms(3))
  note m = markDirty_at_restarts [OF assms(1,4) none]
  from m(1) obtain h where
    h: "pending_saves (markDirty_at t1 p) = [\<lparr>handle = h, due = t1 + debounce_wait, callback = Later\<rparr>]"
      "timeout (markDirty_at t1 p) = Handle h"
    by blast
  have q: "q = fold markDirty_at ts (markDirty_at t1 p)"
    by (simp add: q_def)
  from burst_keeps_one_timer [OF m(3) m(4) h assms(5)]
  obtain h' where id: "current_id q = Some wid"
    and clk: "clock q = last (t1 # ts)"
    and pend: "pending_saves q = [\<lparr>handle = h', due = d, callback = Later\<rparr>]"
    and req: "requests q = requests p"
    unfolding q d_def by (auto simp: m(2))
  have before: "requests (run_until t q) = requests p" if "t < d" for t
  proof -
    have "\<forall>x \<in> set (pending_saves q). t < due x"
      using that by (simp add: pend)
    from run_until_quiet [OF this] show ?thesis
      by (simp add: req)
  qed
  have after: "requests (run_until t q) = requests p @ [d]" if "d \<le> t" for t
  proof -
    have "requests (run_until t q) =
        requests q @ [due \<lparr>handle = h', due = d, callback = Later\<rparr>]"
    proof (rule run_until_fires_save [OF pend _ _ id assms(2)])
      show "due \<lparr>handle = h', due = d, callback = Later\<rparr> \<le> t"
        using that by simp
      show "clock q \<le> due \<lparr>handle = h', due = d, callback = Later\<rparr>"
        by (simp add: clk d_def)
    qed
    then show ?thesis
      by (simp add: req)
  qed
  from req pend before after show ?thesis
    unfolding q_def d_def by blast
qed

text \<open>
  An instance of C5: three signals at the times 0, 500 and 1500 on a freshly loaded page: no request up to
  time 3499, and the one request of time 3500 from then on.
\<close>

theorem debounced_burst_demo:
  "current_id page_loaded = Some ''wf1'' \<and> pending_saves page_loaded = [] \<and> clock page_loaded \<le> 0
   \<and> within_window 0 [500, 1500]
   \<and> requests (run_until 3499 (fold markDirty_at [0, 500, 1500] page_loaded)) = []
   \<and> requests (run_until 3500 (fold markDirty_at [0, 500, 1500] page_loaded)) = [3500]
   \<and> requests (run_until 9000 (fold markDirty_at [0, 500, 1500] page_loaded)) = [3500]"
proof -
  have h1: "current_id page_loaded = Some ''wf1''" and h2: "''wf1'' \<noteq> []"
    and h3: "pending_saves page_loaded = []" and h4: "clock page_loaded \<le> 0"
    and r: "requests page_loaded = []"
    by (simp_all add: page_loaded_def pending_saves_def)
  have h5: "within_window 0 [500, 1500]"
    by (simp add: debounce_wait_def)
  have d: "last [0, 500, 1500] + debounce_wait = (3500::nat)"
    by (simp add: debounce_wait_def)
  from debounced_burst_saves_once [OF h1 h2 h3 h4 h5]
  have "(\<forall>t. t < 3500 \<longrightarrow> requests (run_until t (fold markDirty_at [0, 500, 1500] page_loaded)) = [])
      \<and> (\<forall>t. 3500 \<le> t \<longrightarrow> requests (run_until t (fold markDirty_at [0, 500, 1500] page_loaded)) = [3500])"
    unfolding d r by simp
  then show ?thesis
    using h1 h3 h4 h5 by simp
qed

text \<open>
  Claim C6 says that a manual save cancels the pending debounce timer. \<^verbatim>\<open>saveWorkflow\<close>
  calls \<^verbatim>\<open>clearTimeout(debouncedSave)\<close>, with the debounced function and not the handle
  that \<^verbatim>\<open>debounce\<close> keeps in its closure, so no timer is cleared: after a signal at time 0
  and a manual save at time 1000 the timer is still pending, and at time 2000 it issues
  a second request.
\<close>

theorem manual_save_leaves_timer_pending:
  "pending_saves (markDirty_at 0 page_loaded) = [\<lparr>handle = 1, due = 2000, callback = Later\<rparr>]
   \<and> pending_saves (saveNow_at 1000 (markDirty_at 0 page_loaded)) = [\<lparr>handle = 1, due = 2000, callback = Later\<rparr>]
   \<and> requests (saveNow_at 1000 (markDirty_at 0 page_loaded)) = [1000]
   \<and> requests (run_until 2000 (saveNow_at 1000 (markDirty_at 0 page_loaded))) = [1000, 2000]"
  by (simp add: run_until.simps markDirty_at_def saveNow_at_def page_loaded_def handleStateChange_def
      debouncedSave_def clearTimeout_def setTimeout_def updateSaveStatus_def saveWorkflow_begin_def
      pending_saves_def fire_def debounce_wait_def Let_def)

lemma run_until_keeps_failure:
  assumes "pending_saves p = []" and "status_color p = Danger"
  shows "status_text (run_until t p) = status_text p \<and> status_color (run_until t p) = Danger"
  using assms
proof (induction t p rule: run_until.induct)
  case (1 t p)
  show ?case
  proof (cases "earliest (filter (\<lambda>x. due x \<le> t) (timers p))")
    case None
    then show ?thesis
      by (simp add: run_until.simps [of t p] "1.prems")
  next
    case (Some x)
    have "x \<in> set (timers p)"
      using next_timer_due [OF Some] by simp
    then have "callback x \<noteq> Later"
      using "1.prems"(1) by (auto simp: pending_saves_def filter_empty_conv)
    then have cs: "callback x = ClearStatus"
      by (cases "callback x") simp_all
    have same: "status_text (fire x p) = status_text p" "status_color (fire x p) = Danger"
      using "1.prems"(2) by (simp_all add: fire_def cs clear_status_def)
    have "pending_saves (fire x p) = []"
      by (simp add: fire_ClearStatus [OF cs] "1.prems"(1))
    from "1.IH" [OF Some this same(2)] show ?thesis
      by (simp add: run_until.simps [of t p] Some same)
  qed
qed

lemma saveWorkflow_end_failure:
  "status_text (saveWorkflow_end (Some msg) p) = SaveFailed msg"
  "status_color (saveWorkflow_end (Some msg) p) = Danger"
  "pending_saves (saveWorkflow_end failure p) = pending_saves p"
  by (simp_all add: saveWorkflow_end_def setTimeout_def updateSaveStatus_def pending_saves_def
      split: option.splits)

text \<open>
  The part of claim C7 that the code keeps: a failure message is never erased by the
  status-clearing timer. After a failed save, with no debounced save pending, the message
  is still shown however far the clock runs, and a clearing timer that runs while the
  status line has the failure colour changes neither the text nor the colour.
\<close>

lemma failed_status_survives_clear_timer:
  "(pending_saves p = [] \<longrightarrow>
      status_text (run_until t (saveWorkflow_end (Some msg) p)) = SaveFailed msg)
   \<and> (callback x = ClearStatus \<and> status_color p = Danger \<longrightarrow>
        status_text (fire x p) = status_text p \<and> status_color (fire x p) = Danger)"
proof -
  have "status_text (run_until t (saveWorkflow_end (Some msg) p)) = SaveFailed msg"
    if "pending_saves p = []"
    using run_until_keeps_failure [of "saveWorkflow_end (Some msg) p" t] that
    by (simp add: saveWorkflow_end_failure)
  then show ?thesis
    by (auto simp: fire_def clear_status_def updateSaveStatus_def)
qed

lemmas scheduler_defs = markDirty_at_def saveNow_at_def response_at_def page_loaded_def
  handleStateChange_def debouncedSave_def clearTimeout_def setTimeout_def updateSaveStatus_def
  saveWorkflow_begin_def saveWorkflow_end_def clear_status_def pending_saves_def fire_def
  debounce_wait_def status_wait_def Let_def

text \<open>
  Claim C7 says that the status-clearing timer of a save never erases a more recent
  change notice, and the comment above the timer's test gives that as its purpose. The
  test compares only the colour of the status line with the failure colour, and a
  change notice has the default colour: after a manual save at time 0 that succeeds at
  time 100 and an edit at time 3000, the notice of the edit is shown at time 4099 and
  erased at time 4100 by the timer of the save, while the autosave of that edit is still
  pending.
\<close>

theorem clear_timer_erases_change_notice:
  "status_text edited_after_save = Changed
   \<and> status_text (run_until 4099 edited_after_save) = Changed
   \<and> status_text (run_until 4100 edited_after_save) = Blank
   \<and> pending_saves (run_until 4100 edited_after_save) = [\<lparr>handle = 2, due = 5000, callback = Later\<rparr>]"
  by (simp add: edited_after_save_def run_until.simps scheduler_defs)

end
